theory Spec2Isabelle
  imports Main "HOL-Library.Word"
begin

section \<open>Search history of App.tsx\<close>

text \<open>
  The component \<open>App\<close> keeps three pieces of React state (\<open>searchQuery\<close>,
  \<open>searchHistory\<close>, \<open>isSearching\<close>) and talks to four platform services:
  \<open>AsyncStorage\<close>, \<open>Linking\<close>, \<open>Toast\<close> and \<open>console\<close>. The handlers are
  modelled as functions on the pair of the React state and a record of what the
  services have seen so far. What a service answers (whether a promise resolves or
  rejects, what \<open>Date.now()\<close> returns) is an argument of the handler. Each handler
  is run to completion before the next one starts, so the \<open>searchHistory\<close> that a
  handler closes over is the current one.
\<close>

subsection \<open>JavaScript strings and numbers\<close>

text \<open>
  A JavaScript string is a sequence of UTF-16 code units; \<open>!==\<close> on strings compares
  the code units. \<open>js\<close> turns an ASCII literal into such a string.
\<close>

type_synonym jsstring = "16 word list"

definition js :: "string \<Rightarrow> jsstring" where
  "js s = map (\<lambda>c. of_nat (of_char c)) s"

text \<open>
  \<open>Date.now()\<close> returns an integral number of milliseconds, of magnitude at most
  8.64e15, and \<open>toString()\<close> renders such a number in plain decimal notation, with a
  leading minus sign below zero.
\<close>

definition digitUnit :: "nat \<Rightarrow> 16 word" where
  "digitUnit d = of_nat (48 + d)"

fun natToString :: "nat \<Rightarrow> jsstring" where
  "natToString n =
     (if n < 10 then [digitUnit n] else natToString (n div 10) @ [digitUnit (n mod 10)])"

declare natToString.simps [simp del]

definition toString :: "int \<Rightarrow> jsstring" where
  "toString i = (if i < 0 then 0x2D # natToString (nat (- i)) else natToString (nat i))"

subsection \<open>encodeURIComponent\<close>

text \<open>
  \<open>encodeURIComponent\<close> keeps the letters, the digits and \<open>- _ . ! ~ * ' ( )\<close>,
  and replaces every other code point by the percent-escaped octets of its UTF-8
  encoding. It throws \<open>URIError\<close> on a surrogate code unit that is not part of a
  pair; \<open>None\<close> is that exception.
\<close>

definition uriUnescaped :: "16 word \<Rightarrow> bool" where
  "uriUnescaped c \<longleftrightarrow>
     (0x41 \<le> c \<and> c \<le> 0x5A) \<or> (0x61 \<le> c \<and> c \<le> 0x7A) \<or> (0x30 \<le> c \<and> c \<le> 0x39) \<or>
     c \<in> {0x2D, 0x5F, 0x2E, 0x21, 0x7E, 0x2A, 0x27, 0x28, 0x29}"

definition hexUnit :: "nat \<Rightarrow> 16 word" where
  "hexUnit d = (if d < 10 then of_nat (48 + d) else of_nat (55 + d))"

definition percentOctet :: "nat \<Rightarrow> jsstring" where
  "percentOctet b = [0x25, hexUnit (b div 16), hexUnit (b mod 16)]"

definition utf8Octets :: "nat \<Rightarrow> nat list" where
  "utf8Octets cp =
     (if cp < 0x80 then [cp]
      else if cp < 0x800 then [0xC0 + cp div 64, 0x80 + cp mod 64]
      else if cp < 0x10000 then
        [0xE0 + cp div 4096, 0x80 + (cp div 64) mod 64, 0x80 + cp mod 64]
      else
        [0xF0 + cp div 262144, 0x80 + (cp div 4096) mod 64,
         0x80 + (cp div 64) mod 64, 0x80 + cp mod 64])"

definition escapeCodePoint :: "nat \<Rightarrow> jsstring" where
  "escapeCodePoint cp = concat (map percentOctet (utf8Octets cp))"

definition isLeadSurrogate :: "16 word \<Rightarrow> bool" where
  "isLeadSurrogate c \<longleftrightarrow> 0xD800 \<le> c \<and> c \<le> 0xDBFF"

definition isTrailSurrogate :: "16 word \<Rightarrow> bool" where
  "isTrailSurrogate c \<longleftrightarrow> 0xDC00 \<le> c \<and> c \<le> 0xDFFF"

fun encodeURIComponent :: "jsstring \<Rightarrow> jsstring option" where
  "encodeURIComponent [] = Some []"
| "encodeURIComponent (c # cs) =
     (if uriUnescaped c then map_option ((#) c) (encodeURIComponent cs)
      else if isTrailSurrogate c then None
      else if isLeadSurrogate c then
        (case cs of
           [] \<Rightarrow> None
         | d # ds \<Rightarrow>
             if isTrailSurrogate d then
               map_option
                 ((@) (escapeCodePoint
                        (0x10000 + (unat c - 0xD800) * 0x400 + (unat d - 0xDC00))))
                 (encodeURIComponent ds)
             else None)
      else map_option ((@) (escapeCodePoint (unat c))) (encodeURIComponent cs))"

subsection \<open>State\<close>

record SearchHistoryItem =
  item_id :: jsstring
  query :: jsstring
  timestamp :: int

text \<open>The three \<open>useState\<close> cells of the component.\<close>

record app_state =
  searchQuery :: jsstring
  searchHistory :: "SearchHistoryItem list"
  isSearching :: bool

datatype toast_type = ToastError | ToastSuccess | ToastInfo

datatype toast = Toast toast_type string

text \<open>
  What the platform services have received: the store of \<open>AsyncStorage\<close> (a value
  stands for the \<open>JSON.stringify\<close> of the list), the toasts shown, the lines written
  by \<open>console.error\<close>, the URLs passed to \<open>Linking.openURL\<close>, and the number of
  calls of \<open>Keyboard.dismiss\<close>. Lists grow at the end.
\<close>

record world =
  storage :: "string \<rightharpoonup> SearchHistoryItem list"
  toasts :: "toast list"
  console :: "string list"
  opened :: "jsstring list"
  keyboardDismissals :: nat

definition initial_state :: app_state where
  "initial_state = \<lparr>searchQuery = [], searchHistory = [], isSearching = False\<rparr>"

definition initial_world :: world where
  "initial_world =
     \<lparr>storage = Map.empty, toasts = [], console = [], opened = [], keyboardDismissals = 0\<rparr>"

text \<open>
  The answers of the platform during one call of \<open>performSearch\<close>: whether the
  promise of \<open>Linking.openURL\<close> resolves, the two readings of \<open>Date.now()\<close> (one
  for \<open>id\<close>, one for \<open>timestamp\<close>), and whether the promise of
  \<open>AsyncStorage.setItem\<close> resolves.
\<close>

record search_env =
  openURL_ok :: bool
  now_id :: int
  now_timestamp :: int
  setItem_ok :: bool

subsection \<open>Handlers\<close>

definition toastShow :: "toast_type \<Rightarrow> string \<Rightarrow> world \<Rightarrow> world" where
  "toastShow ty text1 w = w\<lparr>toasts := toasts w @ [Toast ty text1]\<rparr>"

text \<open>
  \<open>saveSearchHistory\<close> catches a rejected \<open>setItem\<close> and logs it; it never
  rejects itself.
\<close>

definition saveSearchHistory :: "bool \<Rightarrow> SearchHistoryItem list \<Rightarrow> world \<Rightarrow> world" where
  "saveSearchHistory ok newHistory w =
     (if ok then w\<lparr>storage := (storage w)(''searchHistory'' \<mapsto> newHistory)\<rparr>
      else w\<lparr>console := console w @ [''Error saving search history:'']\<rparr>)"

text \<open>
  The \<open>try\<close> block of \<open>performSearch\<close>. \<open>Inl\<close> is an exception, with the state
  and the world at the point where it was thrown; \<open>Inr\<close> is the normal end of the
  block.
\<close>

definition searchBody ::
  "search_env \<Rightarrow> jsstring \<Rightarrow> app_state \<times> world \<Rightarrow> (app_state \<times> world) + (app_state \<times> world)" where
  "searchBody env text sw =
     (case sw of (st, w) \<Rightarrow>
        (case encodeURIComponent text of
           None \<Rightarrow> Inl (st, w)
         | Some q \<Rightarrow>
             let searchUrl = js ''https://www.google.com/search?q='' @ q;
                 w1 = w\<lparr>opened := opened w @ [searchUrl]\<rparr>
             in if \<not> openURL_ok env then Inl (st, w1)
                else
                  let newHistoryItem =
                        \<lparr>item_id = toString (now_id env), query = text,
                         timestamp = now_timestamp env\<rparr>;
                      newHistory = newHistoryItem # searchHistory st;
                      st1 = st\<lparr>searchHistory := newHistory\<rparr>;
                      w2 = saveSearchHistory (setItem_ok env) newHistory w1;
                      st2 = st1\<lparr>searchQuery := []\<rparr>
                  in Inr (st2, toastShow ToastSuccess ''Searching...'' w2)))"

definition performSearch ::
  "search_env \<Rightarrow> jsstring \<Rightarrow> app_state \<times> world \<Rightarrow> app_state \<times> world" where
  "performSearch env text sw =
     (case sw of (st, w) \<Rightarrow>
        if text = [] then (st, toastShow ToastError ''Please enter a search query'' w)
        else
          let st1 = st\<lparr>isSearching := True\<rparr>;
              w1 = w\<lparr>keyboardDismissals := Suc (keyboardDismissals w)\<rparr>;
              (st2, w2) =
                (case searchBody env text (st1, w1) of
                   Inr r \<Rightarrow> r
                 | Inl (st', w') \<Rightarrow> (st', toastShow ToastError ''Failed to open search'' w'))
          in (st2\<lparr>isSearching := False\<rparr>, w2))"

definition handleSearch :: "search_env \<Rightarrow> app_state \<times> world \<Rightarrow> app_state \<times> world" where
  "handleSearch env sw = performSearch env (searchQuery (fst sw)) sw"

definition handleSearchAgain ::
  "search_env \<Rightarrow> jsstring \<Rightarrow> app_state \<times> world \<Rightarrow> app_state \<times> world" where
  "handleSearchAgain env q sw = performSearch env q sw"

definition handleDeleteHistory ::
  "bool \<Rightarrow> jsstring \<Rightarrow> app_state \<times> world \<Rightarrow> app_state \<times> world" where
  "handleDeleteHistory ok i sw =
     (case sw of (st, w) \<Rightarrow>
        let newHistory = filter (\<lambda>item. item_id item \<noteq> i) (searchHistory st)
        in (st\<lparr>searchHistory := newHistory\<rparr>,
            toastShow ToastInfo ''Search history item deleted''
              (saveSearchHistory ok newHistory w)))"

definition handleDeleteAll :: "bool \<Rightarrow> app_state \<times> world \<Rightarrow> app_state \<times> world" where
  "handleDeleteAll ok sw =
     (case sw of (st, w) \<Rightarrow>
        (st\<lparr>searchHistory := []\<rparr>,
         toastShow ToastInfo ''All search history cleared'' (saveSearchHistory ok [] w)))"

subsection \<open>Runs\<close>

text \<open>
  What the user can do: type into the input field (\<open>onChangeText\<close>), press the search
  button, press \<open>Search Again\<close> or \<open>Delete\<close> on a row, press \<open>Delete All\<close>. Every
  event carries the answers of the platform to the handler it triggers.
\<close>

datatype event =
    ChangeText jsstring
  | Search search_env
  | SearchAgain search_env jsstring
  | DeleteHistory bool jsstring
  | DeleteAll bool

fun step :: "app_state \<times> world \<Rightarrow> event \<Rightarrow> app_state \<times> world" where
  "step sw (ChangeText t) = (case sw of (st, w) \<Rightarrow> (st\<lparr>searchQuery := t\<rparr>, w))"
| "step sw (Search env) = handleSearch env sw"
| "step sw (SearchAgain env q) = handleSearchAgain env q sw"
| "step sw (DeleteHistory ok i) = handleDeleteHistory ok i sw"
| "step sw (DeleteAll ok) = handleDeleteAll ok sw"

definition run :: "app_state \<times> world \<Rightarrow> event list \<Rightarrow> app_state \<times> world" where
  "run sw evs = foldl step sw evs"

text \<open>The readings of the clock that the searches of a run are given for their ids.\<close>

fun id_clocks :: "event list \<Rightarrow> int list" where
  "id_clocks [] = []"
| "id_clocks (Search env # evs) = now_id env # id_clocks evs"
| "id_clocks (SearchAgain env q # evs) = now_id env # id_clocks evs"
| "id_clocks (ev # evs) = id_clocks evs"

definition ids :: "app_state \<times> world \<Rightarrow> jsstring list" where
  "ids sw = map item_id (searchHistory (fst sw))"

text \<open>Reading a decimal numeral back, to show that \<open>toString\<close> loses nothing.\<close>

definition digitValue :: "16 word \<Rightarrow> nat" where
  "digitValue c = unat c - 48"

definition parseNat :: "jsstring \<Rightarrow> nat" where
  "parseNat s = foldl (\<lambda>a c. 10 * a + digitValue c) 0 s"

text \<open>
  A platform where everything works and the clock stands at \<open>t\<close> for the id and at
  \<open>t'\<close> for the timestamp, and one where the browser cannot be opened. \<open>start\<close>
  is the component after its first render on a fresh installation: the initial values
  of \<open>useState\<close>, and a store in which \<open>loadSearchHistory\<close> finds nothing.
\<close>

definition all_ok :: "int \<Rightarrow> int \<Rightarrow> search_env" where
  "all_ok t t' = \<lparr>openURL_ok = True, now_id = t, now_timestamp = t', setItem_ok = True\<rparr>"

definition no_browser :: "int \<Rightarrow> search_env" where
  "no_browser t = \<lparr>openURL_ok = False, now_id = t, now_timestamp = t, setItem_ok = True\<rparr>"

definition start :: "app_state \<times> world" where
  "start = (initial_state, initial_world)"

section \<open>Basic facts\<close>

subsection \<open>Decimal rendering is injective\<close>

lemma unat_digitUnit: "d < 10 \<Longrightarrow> unat (digitUnit d) = 48 + d"
proof -
  assume "d < 10"
  then have "(48 + d) mod 2 ^ LENGTH(16) = 48 + d" by simp
  then show ?thesis unfolding digitUnit_def by (simp only: unat_of_nat)
qed

lemma digitValue_digitUnit: "d < 10 \<Longrightarrow> digitValue (digitUnit d) = d"
  by (simp add: digitValue_def unat_digitUnit)

lemma parseNat_snoc: "parseNat (s @ [c]) = 10 * parseNat s + digitValue c"
  by (simp add: parseNat_def)

lemma parseNat_natToString: "parseNat (natToString n) = n"
proof (induction n rule: natToString.induct)
  case (1 n)
  show ?case
  proof (cases "n < 10")
    case True
    then show ?thesis
      by (subst natToString.simps) (simp add: parseNat_def digitValue_digitUnit)
  next
    case False
    with 1 have "parseNat (natToString (n div 10)) = n div 10" by simp
    with False show ?thesis
      by (subst natToString.simps) (simp add: parseNat_snoc digitValue_digitUnit)
  qed
qed

lemma natToString_inj: "natToString m = natToString n \<Longrightarrow> m = n"
  by (metis parseNat_natToString)

lemma digitUnit_not_minus: "d < 10 \<Longrightarrow> digitUnit d \<noteq> 0x2D"
proof
  assume "d < 10" and "digitUnit d = 0x2D"
  then have "unat (0x2D :: 16 word) = 48 + d" using unat_digitUnit by metis
  then show False by simp
qed

lemma hd_natToString: "natToString n \<noteq> [] \<and> hd (natToString n) \<noteq> 0x2D"
proof (induction n rule: natToString.induct)
  case (1 n)
  show ?case
  proof (cases "n < 10")
    case True
    then show ?thesis
      by (subst (1 2) natToString.simps) (simp add: digitUnit_not_minus)
  next
    case False
    with 1 have "natToString (n div 10) \<noteq> [] \<and> hd (natToString (n div 10)) \<noteq> 0x2D"
      by simp
    with False show ?thesis
      by (subst (1 2) natToString.simps) simp
  qed
qed

lemma toString_inj: "toString i = toString j \<Longrightarrow> i = j"
proof -
  assume eq: "toString i = toString j"
  have neg: "natToString m \<noteq> 0x2D # s" for m s
    using hd_natToString [of m] by (cases "natToString m") auto
  show "i = j"
  proof (cases "i < 0"; cases "j < 0")
    assume "i < 0" "j < 0"
    with eq have "nat (- i) = nat (- j)" by (simp add: toString_def natToString_inj)
    with \<open>i < 0\<close> \<open>j < 0\<close> show ?thesis by simp
  next
    assume "i < 0" "\<not> j < 0"
    with eq neg show ?thesis by (simp add: toString_def) metis
  next
    assume "\<not> i < 0" "j < 0"
    with eq neg show ?thesis by (simp add: toString_def)
  next
    assume "\<not> i < 0" "\<not> j < 0"
    with eq have "nat i = nat j" by (simp add: toString_def natToString_inj)
    with \<open>\<not> i < 0\<close> \<open>\<not> j < 0\<close> show ?thesis by simp
  qed
qed

subsection \<open>The four ways through performSearch\<close>

lemma performSearch_empty:
  "performSearch env [] (st, w) = (st, toastShow ToastError ''Please enter a search query'' w)"
  by (simp add: performSearch_def)

lemma performSearch_throw:
  assumes "text \<noteq> []" and "encodeURIComponent text = None"
  shows "performSearch env text (st, w) =
           (st\<lparr>isSearching := False\<rparr>,
            toastShow ToastError ''Failed to open search''
              (w\<lparr>keyboardDismissals := Suc (keyboardDismissals w)\<rparr>))"
  using assms by (simp add: performSearch_def searchBody_def)

lemma performSearch_reject:
  assumes "text \<noteq> []" and "encodeURIComponent text = Some q" and "\<not> openURL_ok env"
  shows "performSearch env text (st, w) =
           (st\<lparr>isSearching := False\<rparr>,
            toastShow ToastError ''Failed to open search''
              (w\<lparr>keyboardDismissals := Suc (keyboardDismissals w),
                 opened := opened w @ [js ''https://www.google.com/search?q='' @ q]\<rparr>))"
  using assms by (simp add: performSearch_def searchBody_def Let_def)

lemma performSearch_ok:
  assumes "text \<noteq> []" and "encodeURIComponent text = Some q" and "openURL_ok env"
  shows "performSearch env text (st, w) =
           (st\<lparr>searchHistory :=
                  \<lparr>item_id = toString (now_id env), query = text,
                   timestamp = now_timestamp env\<rparr> # searchHistory st,
                searchQuery := [], isSearching := False\<rparr>,
            toastShow ToastSuccess ''Searching...''
              (saveSearchHistory (setItem_ok env)
                 (\<lparr>item_id = toString (now_id env), query = text,
                   timestamp = now_timestamp env\<rparr> # searchHistory st)
                 (w\<lparr>keyboardDismissals := Suc (keyboardDismissals w),
                    opened := opened w @ [js ''https://www.google.com/search?q='' @ q]\<rparr>)))"
  using assms by (simp add: performSearch_def searchBody_def Let_def)

lemma opened_toastShow [simp]: "opened (toastShow ty m w) = opened w"
  and storage_toastShow [simp]: "storage (toastShow ty m w) = storage w"
  and console_toastShow [simp]: "console (toastShow ty m w) = console w"
  and toasts_toastShow [simp]: "toasts (toastShow ty m w) = toasts w @ [Toast ty m]"
  by (simp_all add: toastShow_def)

lemma opened_saveSearchHistory [simp]: "opened (saveSearchHistory ok h w) = opened w"
  and toasts_saveSearchHistory [simp]: "toasts (saveSearchHistory ok h w) = toasts w"
  by (simp_all add: saveSearchHistory_def)

text \<open>The Launch Port was invoked exactly when the query is not empty and can be encoded.\<close>

lemma opened_performSearch:
  "opened (snd (performSearch env text (st, w))) \<noteq> opened w \<longleftrightarrow>
     text \<noteq> [] \<and> encodeURIComponent text \<noteq> None"
proof (cases "text = []")
  case True
  then show ?thesis by (simp add: performSearch_empty)
next
  case False
  show ?thesis
  proof (cases "encodeURIComponent text")
    case None
    with False show ?thesis by (simp add: performSearch_throw)
  next
    case (Some q)
    with False show ?thesis
      by (cases "openURL_ok env") (simp_all add: performSearch_ok performSearch_reject)
  qed
qed

subsection \<open>Ids along a run\<close>

lemma searchHistory_performSearch:
  "searchHistory (fst (performSearch env text sw)) = searchHistory (fst sw) \<or>
   searchHistory (fst (performSearch env text sw)) =
     \<lparr>item_id = toString (now_id env), query = text, timestamp = now_timestamp env\<rparr>
       # searchHistory (fst sw)"
proof (cases sw)
  case (Pair st w)
  show ?thesis
  proof (cases "text = []")
    case True
    with Pair show ?thesis by (simp add: performSearch_empty)
  next
    case False
    show ?thesis
    proof (cases "encodeURIComponent text")
      case None
      with False Pair show ?thesis by (simp add: performSearch_throw)
    next
      case (Some q)
      with False Pair show ?thesis
        by (cases "openURL_ok env") (simp_all add: performSearch_ok performSearch_reject)
    qed
  qed
qed

lemma ids_performSearch:
  "ids (performSearch env text sw) = ids sw \<or>
   ids (performSearch env text sw) = toString (now_id env) # ids sw"
  using searchHistory_performSearch [of env "text" sw] by (auto simp: ids_def)

lemma ids_handleDeleteHistory:
  "ids (handleDeleteHistory ok i sw) = filter (\<lambda>j. j \<noteq> i) (ids sw)"
  by (cases sw) (simp add: ids_def handleDeleteHistory_def Let_def filter_map comp_def)

lemma ids_handleDeleteAll: "ids (handleDeleteAll ok sw) = []"
  by (cases sw) (simp add: ids_def handleDeleteAll_def)

lemma ids_ChangeText: "ids (step sw (ChangeText t)) = ids sw"
  by (cases sw) (simp add: ids_def)

text \<open>One step keeps the ids distinct when the id it may add is new.\<close>

lemma ids_step:
  assumes "distinct (ids sw)"
    and "\<forall>t \<in> set (id_clocks [ev]). toString t \<notin> set (ids sw)"
  shows "distinct (ids (step sw ev)) \<and>
         set (ids (step sw ev)) \<subseteq> set (ids sw) \<union> toString ` set (id_clocks [ev])"
proof (cases ev)
  case (ChangeText t)
  with assms show ?thesis by (cases sw) (simp add: ids_def)
next
  case (Search env)
  with assms ids_performSearch [of env "searchQuery (fst sw)" sw] show ?thesis
    by (auto simp: handleSearch_def)
next
  case (SearchAgain env q)
  with assms ids_performSearch [of env q sw] show ?thesis
    by (auto simp: handleSearchAgain_def)
next
  case (DeleteHistory ok i)
  with assms show ?thesis by (simp add: ids_handleDeleteHistory)
next
  case (DeleteAll ok)
  then show ?thesis by (simp add: ids_handleDeleteAll)
qed

lemma id_clocks_Cons: "id_clocks (ev # evs) = id_clocks [ev] @ id_clocks evs"
  by (cases ev) simp_all

lemma distinct_ids_run_aux:
  assumes "distinct (ids sw)" and "distinct (id_clocks evs)"
    and "\<forall>t \<in> set (id_clocks evs). toString t \<notin> set (ids sw)"
  shows "distinct (ids (foldl step sw evs))"
  using assms
proof (induction evs arbitrary: sw)
  case Nil
  then show ?case by simp
next
  case (Cons ev evs)
  have split: "id_clocks (ev # evs) = id_clocks [ev] @ id_clocks evs"
    by (rule id_clocks_Cons)
  from Cons.prems have fresh: "\<forall>t \<in> set (id_clocks [ev]). toString t \<notin> set (ids sw)"
    by (simp add: split)
  from ids_step [OF Cons.prems(1) fresh]
  have d: "distinct (ids (step sw ev))"
    and sub: "set (ids (step sw ev)) \<subseteq> set (ids sw) \<union> toString ` set (id_clocks [ev])"
    by simp_all
  from Cons.prems have d': "distinct (id_clocks evs)"
    and disj: "set (id_clocks [ev]) \<inter> set (id_clocks evs) = {}"
    by (simp_all add: split)
  have "toString t \<notin> set (ids (step sw ev))" if t: "t \<in> set (id_clocks evs)" for t
  proof
    assume "toString t \<in> set (ids (step sw ev))"
    with sub consider "toString t \<in> set (ids sw)"
      | u where "u \<in> set (id_clocks [ev])" "toString t = toString u"
      by auto
    then show False
    proof cases
      case 1
      with Cons.prems(3) t show False by (simp add: split)
    next
      case 2
      then have "t = u" by (simp add: toString_inj)
      with 2 t disj show False by auto
    qed
  qed
  with Cons.IH [OF d d'] show ?case by simp
qed

section \<open>The claims\<close>

text \<open>
  C1 (as stated): in every state no two entries of the history share an id, also when
  two entries are created at the same clock instant. This fails: the user types
  \<open>cats\<close>, searches, and presses \<open>Search Again\<close> while \<open>Date.now()\<close> still returns
  1000; both entries get the id \<open>1000\<close>.
\<close>

theorem same_instant_same_id:
  "\<not> distinct (ids (run start
       [ChangeText (js ''cats''), Search (all_ok 1000 1000),
        SearchAgain (all_ok 1000 1000) (js ''cats'')]))"
  by code_simp

text \<open>
  C1 (amended): the ids stay pairwise distinct along every run in which the clock
  readings given to the searches for their ids are pairwise distinct and render to
  none of the ids of the starting list. Deleting and clearing never break this.
\<close>

theorem distinct_ids_run:
  assumes "distinct (ids sw)"
    and "distinct (id_clocks evs)"
    and "\<forall>t \<in> set (id_clocks evs). toString t \<notin> set (ids sw)"
  shows "distinct (ids (run sw evs))"
  unfolding run_def using assms by (rule distinct_ids_run_aux)

theorem distinct_ids_run_witness:
  "ids start = [] \<and>
   id_clocks [ChangeText (js ''cats''), Search (all_ok 1000 1000),
              SearchAgain (all_ok 1001 1001) (js ''cats''), DeleteAll False,
              SearchAgain (all_ok 1002 1003) (js ''dogs'')] = [1000, 1001, 1002] \<and>
   distinct (ids (run start
     [ChangeText (js ''cats''), Search (all_ok 1000 1000),
      SearchAgain (all_ok 1001 1001) (js ''cats''), DeleteAll False,
      SearchAgain (all_ok 1002 1003) (js ''dogs'')]))"
proof -
  let ?evs = "[ChangeText (js ''cats''), Search (all_ok 1000 1000),
      SearchAgain (all_ok 1001 1001) (js ''cats''), DeleteAll False,
      SearchAgain (all_ok 1002 1003) (js ''dogs'')]"
  have h0: "ids start = []" by code_simp
  have h1: "id_clocks ?evs = [1000, 1001, 1002]" by (simp add: all_ok_def)
  have a1: "distinct (ids start)" by (simp add: h0)
  have a2: "distinct (id_clocks ?evs)" unfolding h1 by simp
  have a3: "\<forall>t \<in> set (id_clocks ?evs). toString t \<notin> set (ids start)" unfolding h0 by simp
  from distinct_ids_run [OF a1 a2 a3] h0 h1 show ?thesis by simp
qed

text \<open>
  C2: when the query is not empty, \<open>Linking.openURL\<close> was called and its promise
  resolved, the history is one entry longer, the entry at index 0 has the submitted
  text as its query, and the entries behind it are the previous list.
\<close>

theorem performSearch_prepends:
  assumes "text \<noteq> []"
    and "opened (snd (performSearch env text sw)) \<noteq> opened (snd sw)"
    and "openURL_ok env"
  shows "length (searchHistory (fst (performSearch env text sw))) =
           length (searchHistory (fst sw)) + 1 \<and>
         query (searchHistory (fst (performSearch env text sw)) ! 0) = text \<and>
         drop 1 (searchHistory (fst (performSearch env text sw))) = searchHistory (fst sw)"
proof (cases sw)
  case (Pair st w)
  with assms(2) obtain q where "encodeURIComponent text = Some q"
    using opened_performSearch [of env "text" st w] by auto
  with assms(1,3) Pair show ?thesis by (simp add: performSearch_ok)
qed

theorem performSearch_prepends_witness:
  "js ''dogs'' \<noteq> [] \<and>
   opened (snd (performSearch (all_ok 2000 2000) (js ''dogs'')
                  (performSearch (all_ok 1000 1000) (js ''cats'') start)))
     \<noteq> opened (snd (performSearch (all_ok 1000 1000) (js ''cats'') start)) \<and>
   openURL_ok (all_ok 2000 2000) \<and>
   map query (searchHistory (fst (performSearch (all_ok 1000 1000) (js ''cats'') start)))
     = [js ''cats''] \<and>
   length (searchHistory (fst (performSearch (all_ok 2000 2000) (js ''dogs'')
                  (performSearch (all_ok 1000 1000) (js ''cats'') start)))) = 2 \<and>
   query (searchHistory (fst (performSearch (all_ok 2000 2000) (js ''dogs'')
                  (performSearch (all_ok 1000 1000) (js ''cats'') start))) ! 0) = js ''dogs'' \<and>
   drop 1 (searchHistory (fst (performSearch (all_ok 2000 2000) (js ''dogs'')
                  (performSearch (all_ok 1000 1000) (js ''cats'') start))))
     = searchHistory (fst (performSearch (all_ok 1000 1000) (js ''cats'') start))"
proof -
  let ?s1 = "performSearch (all_ok 1000 1000) (js ''cats'') start"
  have a1: "js ''dogs'' \<noteq> []" by code_simp
  have a2: "opened (snd (performSearch (all_ok 2000 2000) (js ''dogs'') ?s1))
              \<noteq> opened (snd ?s1)" by code_simp
  have a3: "openURL_ok (all_ok 2000 2000)" by (simp add: all_ok_def)
  have h: "map query (searchHistory (fst ?s1)) = [js ''cats'']" by code_simp
  then have l: "length (searchHistory (fst ?s1)) = 1"
    by (metis length_map length_Cons list.size(3) One_nat_def)
  from performSearch_prepends [OF a1 a2 a3] a1 a2 a3 h l show ?thesis by simp
qed

text \<open>
  C3 (as stated): deleting an id that is in the list removes exactly one entry. This
  fails on the list reached by two searches at the same clock reading: both entries
  have the id \<open>1000\<close>, and \<open>filter\<close> drops both.
\<close>

theorem delete_shared_id_removes_two:
  "toString 1000 \<in> set (ids (run start
       [ChangeText (js ''cats''), Search (all_ok 1000 1000),
        SearchAgain (all_ok 1000 1000) (js ''cats'')])) \<and>
   length (searchHistory (fst (run start
       [ChangeText (js ''cats''), Search (all_ok 1000 1000),
        SearchAgain (all_ok 1000 1000) (js ''cats'')]))) = 2 \<and>
   length (searchHistory (fst (handleDeleteHistory True (toString 1000) (run start
       [ChangeText (js ''cats''), Search (all_ok 1000 1000),
        SearchAgain (all_ok 1000 1000) (js ''cats'')])))) = 0"
  by code_simp

text \<open>
  C3 (amended): deleting an id that is in the list removes every entry with that id
  and keeps the other entries in their order; the list gets shorter by the number of
  entries with that id. When the ids of the list are pairwise distinct, exactly one
  entry goes: the list was \<open>xs @ e # ys\<close> and becomes \<open>xs @ ys\<close>.
\<close>

theorem handleDeleteHistory_present:
  assumes "i \<in> set (ids sw)"
  shows "searchHistory (fst (handleDeleteHistory ok i sw)) =
           filter (\<lambda>item. item_id item \<noteq> i) (searchHistory (fst sw)) \<and>
         length (searchHistory (fst (handleDeleteHistory ok i sw))) +
           length (filter (\<lambda>item. item_id item = i) (searchHistory (fst sw))) =
           length (searchHistory (fst sw)) \<and>
         length (searchHistory (fst (handleDeleteHistory ok i sw))) <
           length (searchHistory (fst sw)) \<and>
         (distinct (ids sw) \<longrightarrow>
            (\<exists>xs e ys. searchHistory (fst sw) = xs @ e # ys \<and> item_id e = i \<and>
               searchHistory (fst (handleDeleteHistory ok i sw)) = xs @ ys))"
proof -
  let ?h = "searchHistory (fst sw)"
  let ?h' = "searchHistory (fst (handleDeleteHistory ok i sw))"
  have new: "?h' = filter (\<lambda>item. item_id item \<noteq> i) ?h"
    by (cases sw) (simp add: handleDeleteHistory_def Let_def)
  have count: "length ?h' + length (filter (\<lambda>item. item_id item = i) ?h) = length ?h"
    using sum_length_filter_compl [of "\<lambda>item. item_id item = i" ?h] by (simp add: new)
  from assms obtain e where e: "e \<in> set ?h" "item_id e = i"
    by (auto simp: ids_def)
  then have "filter (\<lambda>item. item_id item = i) ?h \<noteq> []"
    by (auto simp: filter_empty_conv)
  with count have less: "length ?h' < length ?h"
    by (cases "filter (\<lambda>item. item_id item = i) ?h") auto
  have one: "\<exists>xs e ys. ?h = xs @ e # ys \<and> item_id e = i \<and> ?h' = xs @ ys"
    if d: "distinct (ids sw)"
  proof -
    from e obtain xs ys where h: "?h = xs @ e # ys"
      by (auto dest: split_list)
    with d e have "i \<notin> item_id ` set xs" and "i \<notin> item_id ` set ys"
      by (auto simp: ids_def)
    then have "filter (\<lambda>item. item_id item \<noteq> i) xs = xs"
      and "filter (\<lambda>item. item_id item \<noteq> i) ys = ys"
      by (auto simp: filter_id_conv)
    with h e new have "?h' = xs @ ys" by simp
    with h e show ?thesis by blast
  qed
  from new count less one show ?thesis by blast
qed

theorem handleDeleteHistory_present_witness:
  "toString 1000 \<in> set (ids (run start
       [ChangeText (js ''cats''), Search (all_ok 1000 1000),
        SearchAgain (all_ok 1001 1001) (js ''cats'')])) \<and>
   distinct (ids (run start
       [ChangeText (js ''cats''), Search (all_ok 1000 1000),
        SearchAgain (all_ok 1001 1001) (js ''cats'')])) \<and>
   length (searchHistory (fst (run start
       [ChangeText (js ''cats''), Search (all_ok 1000 1000),
        SearchAgain (all_ok 1001 1001) (js ''cats'')]))) = 2 \<and>
   length (searchHistory (fst (handleDeleteHistory True (toString 1000) (run start
       [ChangeText (js ''cats''), Search (all_ok 1000 1000),
        SearchAgain (all_ok 1001 1001) (js ''cats'')])))) < 2 \<and>
   (\<exists>xs e ys.
      searchHistory (fst (run start
       [ChangeText (js ''cats''), Search (all_ok 1000 1000),
        SearchAgain (all_ok 1001 1001) (js ''cats'')])) = xs @ e # ys \<and>
      item_id e = toString 1000 \<and>
      searchHistory (fst (handleDeleteHistory True (toString 1000) (run start
       [ChangeText (js ''cats''), Search (all_ok 1000 1000),
        SearchAgain (all_ok 1001 1001) (js ''cats'')]))) = xs @ ys)"
proof -
  let ?s = "run start [ChangeText (js ''cats''), Search (all_ok 1000 1000),
        SearchAgain (all_ok 1001 1001) (js ''cats'')]"
  have a1: "toString 1000 \<in> set (ids ?s)" by code_simp
  have a2: "distinct (ids ?s)" by code_simp
  have l: "length (searchHistory (fst ?s)) = 2" by code_simp
  note k = handleDeleteHistory_present [OF a1, of True, unfolded l]
  from k a1 a2 l show ?thesis by blast
qed

text \<open>
  C4: \<open>performSearch\<close> on the empty string shows the error toast
  \<open>Please enter a search query\<close> and does nothing else: the React state (with the
  history) is the same, no URL was passed to \<open>Linking.openURL\<close>, and nothing was
  stored or logged.
\<close>

theorem performSearch_empty_query:
  "performSearch env [] sw =
     (fst sw, (snd sw)\<lparr>toasts := toasts (snd sw) @
                 [Toast ToastError ''Please enter a search query'']\<rparr>) \<and>
   searchHistory (fst (performSearch env [] sw)) = searchHistory (fst sw) \<and>
   opened (snd (performSearch env [] sw)) = opened (snd sw) \<and>
   storage (snd (performSearch env [] sw)) = storage (snd sw) \<and>
   toasts (snd (performSearch env [] sw)) =
     toasts (snd sw) @ [Toast ToastError ''Please enter a search query'']"
  by (cases sw) (simp add: performSearch_empty toastShow_def)

text \<open>
  C5: on a query that is not empty, \<open>isSearching\<close> is false when \<open>performSearch\<close>
  is done, whatever happened; and when the promise of \<open>Linking.openURL\<close> does not
  resolve, the history and the store are as before and the error toast
  \<open>Failed to open search\<close> is shown.
\<close>

theorem performSearch_launch_rejected:
  assumes "text \<noteq> []"
  shows "\<not> isSearching (fst (performSearch env text sw)) \<and>
         (\<not> openURL_ok env \<longrightarrow>
            searchHistory (fst (performSearch env text sw)) = searchHistory (fst sw) \<and>
            storage (snd (performSearch env text sw)) = storage (snd sw) \<and>
            toasts (snd (performSearch env text sw)) =
              toasts (snd sw) @ [Toast ToastError ''Failed to open search''])"
proof (cases sw)
  case (Pair st w)
  show ?thesis
  proof (cases "encodeURIComponent text")
    case None
    with assms Pair show ?thesis by (simp add: performSearch_throw)
  next
    case (Some q)
    with assms Pair show ?thesis
      by (cases "openURL_ok env") (simp_all add: performSearch_ok performSearch_reject)
  qed
qed

theorem performSearch_launch_rejected_witness:
  "js ''cats'' \<noteq> [] \<and> \<not> openURL_ok (no_browser 3000) \<and>
   length (opened (snd (performSearch (no_browser 3000) (js ''cats'')
      (performSearch (all_ok 1000 1000) (js ''dogs'') start)))) = 2 \<and>
   \<not> isSearching (fst (performSearch (no_browser 3000) (js ''cats'')
      (performSearch (all_ok 1000 1000) (js ''dogs'') start))) \<and>
   searchHistory (fst (performSearch (no_browser 3000) (js ''cats'')
      (performSearch (all_ok 1000 1000) (js ''dogs'') start))) =
     searchHistory (fst (performSearch (all_ok 1000 1000) (js ''dogs'') start)) \<and>
   storage (snd (performSearch (no_browser 3000) (js ''cats'')
      (performSearch (all_ok 1000 1000) (js ''dogs'') start))) =
     storage (snd (performSearch (all_ok 1000 1000) (js ''dogs'') start)) \<and>
   toasts (snd (performSearch (no_browser 3000) (js ''cats'')
      (performSearch (all_ok 1000 1000) (js ''dogs'') start))) =
     [Toast ToastSuccess ''Searching...'', Toast ToastError ''Failed to open search'']"
proof -
  let ?s = "performSearch (all_ok 1000 1000) (js ''dogs'') start"
  have a1: "js ''cats'' \<noteq> []" by code_simp
  have a2: "\<not> openURL_ok (no_browser 3000)" by (simp add: no_browser_def)
  have o: "length (opened (snd (performSearch (no_browser 3000) (js ''cats'') ?s))) = 2"
    by code_simp
  have t: "toasts (snd ?s) = [Toast ToastSuccess ''Searching...'']" by code_simp
  from performSearch_launch_rejected [OF a1, of "no_browser 3000" ?s] a1 a2 o t
  show ?thesis by simp
qed

text \<open>
  C6: \<open>handleDeleteHistory\<close> always shows the toast
  \<open>Search history item deleted\<close>, and when no entry of the list has the given id
  the React state, with the list, is what it was.
\<close>

theorem handleDeleteHistory_absent:
  "toasts (snd (handleDeleteHistory ok i sw)) =
     toasts (snd sw) @ [Toast ToastInfo ''Search history item deleted''] \<and>
   (i \<notin> set (ids sw) \<longrightarrow>
      searchHistory (fst (handleDeleteHistory ok i sw)) = searchHistory (fst sw) \<and>
      length (searchHistory (fst (handleDeleteHistory ok i sw))) =
        length (searchHistory (fst sw)) \<and>
      fst (handleDeleteHistory ok i sw) = fst sw)"
proof (cases sw)
  case (Pair st w)
  have "filter (\<lambda>item. item_id item \<noteq> i) (searchHistory st) = searchHistory st"
    if "i \<notin> set (ids sw)"
    using that Pair by (auto simp: ids_def filter_id_conv)
  with Pair show ?thesis
    by (simp add: handleDeleteHistory_def Let_def)
qed

theorem handleDeleteHistory_absent_witness:
  "toString 7 \<notin> set (ids (performSearch (all_ok 1000 1000) (js ''cats'') start)) \<and>
   length (searchHistory (fst (performSearch (all_ok 1000 1000) (js ''cats'') start))) = 1 \<and>
   toasts (snd (handleDeleteHistory True (toString 7)
      (performSearch (all_ok 1000 1000) (js ''cats'') start))) =
     [Toast ToastSuccess ''Searching...'', Toast ToastInfo ''Search history item deleted''] \<and>
   fst (handleDeleteHistory True (toString 7)
      (performSearch (all_ok 1000 1000) (js ''cats'') start)) =
     fst (performSearch (all_ok 1000 1000) (js ''cats'') start)"
proof -
  let ?s = "performSearch (all_ok 1000 1000) (js ''cats'') start"
  have a: "toString 7 \<notin> set (ids ?s)" by code_simp
  have l: "length (searchHistory (fst ?s)) = 1" by code_simp
  have t: "toasts (snd ?s) = [Toast ToastSuccess ''Searching...'']" by code_simp
  note k = handleDeleteHistory_absent [of True "toString 7" ?s, unfolded t]
  from k a l show ?thesis by simp
qed

text \<open>
  C7: after \<open>handleDeleteAll\<close> the history is empty, whatever it was, and a second
  \<open>handleDeleteAll\<close> leaves the React state of the first.
\<close>

theorem handleDeleteAll_idempotent:
  "searchHistory (fst (handleDeleteAll ok sw)) = [] \<and>
   searchHistory (fst (handleDeleteAll ok' (handleDeleteAll ok sw))) =
     searchHistory (fst (handleDeleteAll ok sw)) \<and>
   fst (handleDeleteAll ok' (handleDeleteAll ok sw)) = fst (handleDeleteAll ok sw)"
  by (cases sw) (simp add: handleDeleteAll_def)

text \<open>
  C8: when the promise of \<open>AsyncStorage.setItem\<close> does not resolve, each of the three
  mutations still updates the history in the React state as it would otherwise, logs
  one line with \<open>console.error\<close>, leaves the store as it was, and shows the toast of
  the good case (\<open>Searching...\<close>, or the informational one), no error toast.
\<close>

theorem write_failure_is_logged:
  assumes "text \<noteq> []"
    and "opened (snd (performSearch env text sw)) \<noteq> opened (snd sw)"
    and "openURL_ok env"
    and "\<not> setItem_ok env"
  shows "searchHistory (fst (performSearch env text sw)) =
           \<lparr>item_id = toString (now_id env), query = text, timestamp = now_timestamp env\<rparr>
             # searchHistory (fst sw) \<and>
         console (snd (performSearch env text sw)) =
           console (snd sw) @ [''Error saving search history:''] \<and>
         storage (snd (performSearch env text sw)) = storage (snd sw) \<and>
         toasts (snd (performSearch env text sw)) =
           toasts (snd sw) @ [Toast ToastSuccess ''Searching...''] \<and>
         searchHistory (fst (handleDeleteHistory False i sw)) =
           filter (\<lambda>item. item_id item \<noteq> i) (searchHistory (fst sw)) \<and>
         console (snd (handleDeleteHistory False i sw)) =
           console (snd sw) @ [''Error saving search history:''] \<and>
         storage (snd (handleDeleteHistory False i sw)) = storage (snd sw) \<and>
         toasts (snd (handleDeleteHistory False i sw)) =
           toasts (snd sw) @ [Toast ToastInfo ''Search history item deleted''] \<and>
         searchHistory (fst (handleDeleteAll False sw)) = [] \<and>
         console (snd (handleDeleteAll False sw)) =
           console (snd sw) @ [''Error saving search history:''] \<and>
         storage (snd (handleDeleteAll False sw)) = storage (snd sw) \<and>
         toasts (snd (handleDeleteAll False sw)) =
           toasts (snd sw) @ [Toast ToastInfo ''All search history cleared'']"
proof (cases sw)
  case (Pair st w)
  from assms(2) Pair obtain q where q: "encodeURIComponent text = Some q"
    using opened_performSearch [of env "text" st w] by auto
  have search: "performSearch env text sw =
      (st\<lparr>searchHistory :=
             \<lparr>item_id = toString (now_id env), query = text,
              timestamp = now_timestamp env\<rparr> # searchHistory st,
           searchQuery := [], isSearching := False\<rparr>,
       toastShow ToastSuccess ''Searching...''
         (saveSearchHistory (setItem_ok env)
            (\<lparr>item_id = toString (now_id env), query = text,
              timestamp = now_timestamp env\<rparr> # searchHistory st)
            (w\<lparr>keyboardDismissals := Suc (keyboardDismissals w),
               opened := opened w @ [js ''https://www.google.com/search?q='' @ q]\<rparr>)))"
    using assms(1,3) q Pair by (simp add: performSearch_ok)
  have s: "searchHistory (fst (performSearch env text sw)) =
           \<lparr>item_id = toString (now_id env), query = text, timestamp = now_timestamp env\<rparr>
             # searchHistory (fst sw) \<and>
         console (snd (performSearch env text sw)) =
           console (snd sw) @ [''Error saving search history:''] \<and>
         storage (snd (performSearch env text sw)) = storage (snd sw) \<and>
         toasts (snd (performSearch env text sw)) =
           toasts (snd sw) @ [Toast ToastSuccess ''Searching...'']"
    unfolding search using assms(4) Pair by (simp add: saveSearchHistory_def)
  have d: "searchHistory (fst (handleDeleteHistory False i sw)) =
           filter (\<lambda>item. item_id item \<noteq> i) (searchHistory (fst sw)) \<and>
         console (snd (handleDeleteHistory False i sw)) =
           console (snd sw) @ [''Error saving search history:''] \<and>
         storage (snd (handleDeleteHistory False i sw)) = storage (snd sw) \<and>
         toasts (snd (handleDeleteHistory False i sw)) =
           toasts (snd sw) @ [Toast ToastInfo ''Search history item deleted'']"
    using Pair by (simp add: handleDeleteHistory_def Let_def saveSearchHistory_def)
  have c: "searchHistory (fst (handleDeleteAll False sw)) = [] \<and>
         console (snd (handleDeleteAll False sw)) =
           console (snd sw) @ [''Error saving search history:''] \<and>
         storage (snd (handleDeleteAll False sw)) = storage (snd sw) \<and>
         toasts (snd (handleDeleteAll False sw)) =
           toasts (snd sw) @ [Toast ToastInfo ''All search history cleared'']"
    using Pair by (simp add: handleDeleteAll_def saveSearchHistory_def)
  from s d c show ?thesis by blast
qed

theorem write_failure_is_logged_witness:
  "js ''dogs'' \<noteq> [] \<and>
   opened (snd (performSearch ((all_ok 2000 2000)\<lparr>setItem_ok := False\<rparr>) (js ''dogs'')
                  (performSearch (all_ok 1000 1000) (js ''cats'') start)))
     \<noteq> opened (snd (performSearch (all_ok 1000 1000) (js ''cats'') start)) \<and>
   openURL_ok ((all_ok 2000 2000)\<lparr>setItem_ok := False\<rparr>) \<and>
   \<not> setItem_ok ((all_ok 2000 2000)\<lparr>setItem_ok := False\<rparr>) \<and>
   console (snd (performSearch (all_ok 1000 1000) (js ''cats'') start)) = [] \<and>
   searchHistory (fst (performSearch ((all_ok 2000 2000)\<lparr>setItem_ok := False\<rparr>) (js ''dogs'')
                  (performSearch (all_ok 1000 1000) (js ''cats'') start))) =
     \<lparr>item_id = toString (now_id ((all_ok 2000 2000)\<lparr>setItem_ok := False\<rparr>)),
      query = js ''dogs'',
      timestamp = now_timestamp ((all_ok 2000 2000)\<lparr>setItem_ok := False\<rparr>)\<rparr>
       # searchHistory (fst (performSearch (all_ok 1000 1000) (js ''cats'') start)) \<and>
   console (snd (performSearch ((all_ok 2000 2000)\<lparr>setItem_ok := False\<rparr>) (js ''dogs'')
                  (performSearch (all_ok 1000 1000) (js ''cats'') start))) =
     [''Error saving search history:''] \<and>
   storage (snd (performSearch ((all_ok 2000 2000)\<lparr>setItem_ok := False\<rparr>) (js ''dogs'')
                  (performSearch (all_ok 1000 1000) (js ''cats'') start))) =
     storage (snd (performSearch (all_ok 1000 1000) (js ''cats'') start)) \<and>
   console (snd (handleDeleteHistory False (toString 1000)
                  (performSearch (all_ok 1000 1000) (js ''cats'') start))) =
     [''Error saving search history:''] \<and>
   searchHistory (fst (handleDeleteAll False
                  (performSearch (all_ok 1000 1000) (js ''cats'') start))) = [] \<and>
   console (snd (handleDeleteAll False
                  (performSearch (all_ok 1000 1000) (js ''cats'') start))) =
     [''Error saving search history:'']"
proof -
  let ?s = "performSearch (all_ok 1000 1000) (js ''cats'') start"
  let ?e = "(all_ok 2000 2000)\<lparr>setItem_ok := False\<rparr>"
  have a1: "js ''dogs'' \<noteq> []" by code_simp
  have a2: "opened (snd (performSearch ?e (js ''dogs'') ?s)) \<noteq> opened (snd ?s)"
    by code_simp
  have a3: "openURL_ok ?e" by (simp add: all_ok_def)
  have a4: "\<not> setItem_ok ?e" by simp
  have c: "console (snd ?s) = []" by code_simp
  note k = write_failure_is_logged [OF a1 a2 a3 a4, of "toString 1000", unfolded c append_Nil]
  from k a1 a2 a3 a4 c show ?thesis by blast
qed

text \<open>
  C9 (as stated): the id of a new entry is the decimal rendering of its timestamp.
  \<open>performSearch\<close> reads \<open>Date.now()\<close> twice, once for \<open>id\<close> and once for
  \<open>timestamp\<close>; when the clock moves from 1000 to 1001 between the two readings the
  id is \<open>1000\<close> and the timestamp is 1001.
\<close>

theorem id_is_not_rendered_timestamp:
  "item_id (searchHistory (fst (performSearch (all_ok 1000 1001) (js ''cats'') start)) ! 0)
     \<noteq> toString (timestamp
          (searchHistory (fst (performSearch (all_ok 1000 1001) (js ''cats'') start)) ! 0))"
  by code_simp

text \<open>
  C9 (amended): the id of a new entry is the decimal rendering of the clock reading
  taken for \<open>id\<close>, and its timestamp is the reading taken for \<open>timestamp\<close>; the id is
  the rendering of the timestamp exactly when the two readings are equal.
\<close>

theorem new_entry_id:
  assumes "text \<noteq> []"
    and "opened (snd (performSearch env text sw)) \<noteq> opened (snd sw)"
    and "openURL_ok env"
  shows "item_id (searchHistory (fst (performSearch env text sw)) ! 0) =
           toString (now_id env) \<and>
         timestamp (searchHistory (fst (performSearch env text sw)) ! 0) =
           now_timestamp env \<and>
         (item_id (searchHistory (fst (performSearch env text sw)) ! 0) =
            toString (timestamp (searchHistory (fst (performSearch env text sw)) ! 0))
          \<longleftrightarrow> now_id env = now_timestamp env)"
proof (cases sw)
  case (Pair st w)
  with assms(2) obtain q where "encodeURIComponent text = Some q"
    using opened_performSearch [of env "text" st w] by auto
  with assms(1,3) Pair show ?thesis
    by (auto simp: performSearch_ok dest: toString_inj)
qed

theorem new_entry_id_witness:
  "js ''cats'' \<noteq> [] \<and>
   opened (snd (performSearch (all_ok 1000 1000) (js ''cats'') start)) \<noteq> opened (snd start) \<and>
   openURL_ok (all_ok 1000 1000) \<and>
   now_id (all_ok 1000 1000) = 1000 \<and> now_timestamp (all_ok 1000 1000) = 1000 \<and>
   item_id (searchHistory (fst (performSearch (all_ok 1000 1000) (js ''cats'') start)) ! 0) =
     toString 1000 \<and>
   timestamp (searchHistory (fst (performSearch (all_ok 1000 1000) (js ''cats'') start)) ! 0) =
     1000 \<and>
   item_id (searchHistory (fst (performSearch (all_ok 1000 1000) (js ''cats'') start)) ! 0) =
     toString (timestamp
       (searchHistory (fst (performSearch (all_ok 1000 1000) (js ''cats'') start)) ! 0))"
proof -
  have a1: "js ''cats'' \<noteq> []" by code_simp
  have a2: "opened (snd (performSearch (all_ok 1000 1000) (js ''cats'') start))
              \<noteq> opened (snd start)" by code_simp
  have a3: "openURL_ok (all_ok 1000 1000)" by (simp add: all_ok_def)
  have n: "now_id (all_ok 1000 1000) = 1000" "now_timestamp (all_ok 1000 1000) = 1000"
    by (simp_all add: all_ok_def)
  note k = new_entry_id [OF a1 a2 a3, unfolded n]
  from k a1 a2 a3 n show ?thesis by simp
qed

text \<open>
  C10: \<open>performSearch\<close> leaves \<open>searchQuery\<close> as it was when the query is empty,
  when the query cannot be encoded, and when the promise of \<open>Linking.openURL\<close> does
  not resolve. So a changed \<open>searchQuery\<close> means that the query was not empty, the
  URL was opened and the promise resolved; it is then empty.
\<close>

theorem searchQuery_cleared_only_on_success:
  "(text = [] \<or> encodeURIComponent text = None \<or> \<not> openURL_ok env \<longrightarrow>
      searchQuery (fst (performSearch env text sw)) = searchQuery (fst sw)) \<and>
   (searchQuery (fst (performSearch env text sw)) \<noteq> searchQuery (fst sw) \<longrightarrow>
      text \<noteq> [] \<and> openURL_ok env \<and>
      opened (snd (performSearch env text sw)) \<noteq> opened (snd sw) \<and>
      searchQuery (fst (performSearch env text sw)) = [])"
proof (cases sw)
  case (Pair st w)
  show ?thesis
  proof (cases "text = []")
    case True
    with Pair show ?thesis by (simp add: performSearch_empty)
  next
    case False
    show ?thesis
    proof (cases "encodeURIComponent text")
      case None
      with False Pair show ?thesis by (simp add: performSearch_throw)
    next
      case (Some q)
      with False Pair show ?thesis
        by (cases "openURL_ok env") (simp_all add: performSearch_ok performSearch_reject)
    qed
  qed
qed

theorem searchQuery_cleared_only_on_success_witness:
  "searchQuery (fst (step start (ChangeText (js ''cats'')))) = js ''cats'' \<and>
   searchQuery (fst (performSearch (all_ok 1000 1000) []
      (step start (ChangeText (js ''cats''))))) = js ''cats'' \<and>
   \<not> openURL_ok (no_browser 1000) \<and>
   searchQuery (fst (performSearch (no_browser 1000) (js ''cats'')
      (step start (ChangeText (js ''cats''))))) = js ''cats'' \<and>
   encodeURIComponent [0xD83D] = None \<and>
   searchQuery (fst (performSearch (all_ok 1000 1000) [0xD83D]
      (step start (ChangeText (js ''cats''))))) = js ''cats'' \<and>
   searchQuery (fst (performSearch (all_ok 1000 1000) (js ''cats'')
      (step start (ChangeText (js ''cats''))))) \<noteq> js ''cats'' \<and>
   opened (snd (performSearch (all_ok 1000 1000) (js ''cats'')
      (step start (ChangeText (js ''cats''))))) \<noteq>
     opened (snd (step start (ChangeText (js ''cats'')))) \<and>
   searchQuery (fst (performSearch (all_ok 1000 1000) (js ''cats'')
      (step start (ChangeText (js ''cats''))))) = []"
proof -
  let ?s = "step start (ChangeText (js ''cats''))"
  have q: "searchQuery (fst ?s) = js ''cats''" by code_simp
  have r: "\<not> openURL_ok (no_browser 1000)" by (simp add: no_browser_def)
  have u: "encodeURIComponent [0xD83D] = None" by code_simp
  have c: "searchQuery (fst (performSearch (all_ok 1000 1000) (js ''cats'') ?s))
             \<noteq> js ''cats''" by code_simp
  note k1 = searchQuery_cleared_only_on_success [of "[]" "all_ok 1000 1000" ?s, unfolded q]
  note k2 = searchQuery_cleared_only_on_success [of "js ''cats''" "no_browser 1000" ?s, unfolded q]
  note k3 = searchQuery_cleared_only_on_success [of "[0xD83D]" "all_ok 1000 1000" ?s, unfolded q]
  note k4 = searchQuery_cleared_only_on_success [of "js ''cats''" "all_ok 1000 1000" ?s, unfolded q]
  from k1 have 1: "searchQuery (fst (performSearch (all_ok 1000 1000) [] ?s)) = js ''cats''"
    by blast
  from k2 r have 2: "searchQuery (fst (performSearch (no_browser 1000) (js ''cats'') ?s)) = js ''cats''"
    by blast
  from k3 u have 3: "searchQuery (fst (performSearch (all_ok 1000 1000) [0xD83D] ?s)) = js ''cats''"
    by blast
  from k4 c have 4: "opened (snd (performSearch (all_ok 1000 1000) (js ''cats'') ?s)) \<noteq>
     opened (snd ?s) \<and> searchQuery (fst (performSearch (all_ok 1000 1000) (js ''cats'') ?s)) = []"
    by blast
  from q r u c 1 2 3 4 show ?thesis by blast
qed

end
